theory Spec2Isabelle
  imports Main
begin

section \<open>Shared vocabulary\<close>

text \<open>
  Go's \<open>error\<close> values.  The two errors the users package names itself are constructors;
  every error that a collaborator hands back (remote service, credential store, store,
  users manager) is \<open>ErrExternal\<close> with its message.
\<close>

datatype error =
    ErrWrongMailboxPassword
  | ErrUserAlreadyConnected
  | ErrExternal string

text \<open>
  \<open>strings.ToLower\<close> of the Go standard library, on the bytes of the string.  For a
  string of ASCII bytes it adds \<open>'a' - 'A'\<close> to every byte in \<open>'A' .. 'Z'\<close> and keeps
  the others; that path is what is written here.  On other strings Go maps every rune
  with \<open>unicode.ToLower\<close>, which can change the length in bytes, and replaces invalid
  UTF-8; that is not modelled (bytes outside ASCII are kept).  No general theorem below
  unfolds \<open>ToLower\<close>: they use only that equal arguments give equal keys, and hold for
  any function in its place.  Only the evaluation of the concrete ASCII addresses unfolds
  it.
\<close>

definition toLowerByte :: "char \<Rightarrow> char" where
  "toLowerByte c =
     (if (65::nat) \<le> of_char c \<and> of_char c \<le> (90::nat)
      then char_of (of_char c + (32::nat)) else c)"

definition ToLower :: "string \<Rightarrow> string" where
  "ToLower s = map toLowerByte s"

section \<open>The IMAP backend (pkg/imap/backend.go)\<close>

subsection \<open>Data\<close>

text \<open>
  A \<open>*users.User\<close> object, referred to by a name.  The users manager keeps one object
  per account, so the name stands for the account as well.
\<close>

type_synonym bridgeUser = string

text \<open>
  A \<open>*imapUser\<close>, the session wrapper built by \<open>newIMAPUser(ib, user, addressID, address)\<close>.
  The wrapper is a heap object: \<open>ptr\<close> is its identity (the allocation number), the other
  fields are the constructor's arguments.
\<close>

record imapUser =
  ptr :: nat
  user :: bridgeUser
  addressID :: string
  currentAddressLowercase :: string

text \<open>
  The calls with an effect outside the backend that \<open>getUser\<close>, \<open>createUser\<close> and
  \<open>Login\<close> issue, in program order: \<open>user.BringOnline(slot, password)\<close>,
  \<open>imapUser.user.CheckCredentials(slot, password)\<close>, \<open>imapUser.Logout()\<close> (the wrapper is
  named by its \<open>ptr\<close>), \<open>time.Sleep(n * time.Second)\<close> and
  \<open>store.SetChangeNotifier(ib.updates)\<close> on the store of a user.
\<close>

datatype event =
    EvBringOnline bridgeUser string string
  | EvCheckCredentials bridgeUser string string
  | EvLogout nat
  | EvSleep nat
  | EvSetChangeNotifier bridgeUser

text \<open>
  The part of \<open>imapBackend\<close> that the login path reads and writes: the map \<open>users\<close>
  (guarded by \<open>usersLocker\<close>, which \<open>getUser\<close> and \<open>deleteUser\<close> hold for their whole
  body, so their calls are atomic steps), the allocator of wrapper objects, and the log of
  the outside calls made so far.
\<close>

record imapBackend =
  users :: "string \<rightharpoonup> imapUser"
  next_ptr :: nat
  trace :: "event list"

text \<open>
  The collaborators whose code is not part of the backend, as the answers they give:
  \<open>usersMgr.GetUser\<close>, the methods of \<open>*users.User\<close> that the backend calls,
  \<open>users.DecodeLogin\<close>, whether the constructor \<open>newIMAPUser\<close> reports an error, and
  whether \<open>GetStore\<close> returns a store (\<open>True\<close>) or \<open>nil\<close>.
\<close>

record env =
  GetUser :: "string \<Rightarrow> error + bridgeUser"
  BringOnline :: "bridgeUser \<Rightarrow> string \<Rightarrow> string \<Rightarrow> error option"
  GetPrimaryAddress :: "bridgeUser \<Rightarrow> string"
  GetAddressID :: "bridgeUser \<Rightarrow> string \<Rightarrow> error + string"
  newIMAPUserErr :: "bridgeUser \<Rightarrow> string \<Rightarrow> string \<Rightarrow> error option"
  DecodeLogin :: "string \<Rightarrow> string \<times> string"
  CheckCredentials :: "bridgeUser \<Rightarrow> string \<Rightarrow> string \<Rightarrow> error option"
  GetStore :: "bridgeUser \<Rightarrow> bool"

subsection \<open>Operations\<close>

text \<open>\<open>NewIMAPBackend\<close>: the map starts empty, nothing has been allocated or called.\<close>

definition NewIMAPBackend :: imapBackend where
  "NewIMAPBackend = \<lparr>users = Map.empty, next_ptr = 0, trace = []\<rparr>"

text \<open>
  \<open>newIMAPUser\<close>: either the constructor's error, or a fresh wrapper object holding the
  arguments.
\<close>

definition newIMAPUser ::
  "env \<Rightarrow> imapBackend \<Rightarrow> bridgeUser \<Rightarrow> string \<Rightarrow> string \<Rightarrow> (error + imapUser) \<times> imapBackend" where
  "newIMAPUser E ib u aid address =
     (case newIMAPUserErr E u aid address of
        Some err \<Rightarrow> (Inl err, ib)
      | None \<Rightarrow>
          (Inr \<lparr>ptr = next_ptr ib, user = u, addressID = aid,
                currentAddressLowercase = address\<rparr>,
           ib\<lparr>next_ptr := Suc (next_ptr ib)\<rparr>))"

text \<open>\<open>createUser\<close> (the caller holds the lock and passes a lowercased address).\<close>

definition createUser ::
  "env \<Rightarrow> imapBackend \<Rightarrow> string \<Rightarrow> string \<Rightarrow> string \<Rightarrow> (error + imapUser) \<times> imapBackend" where
  "createUser E ib address slot password =
     (case GetUser E address of
        Inl err \<Rightarrow> (Inl err, ib)
      | Inr u \<Rightarrow>
          (let ib1 = ib\<lparr>trace := trace ib @ [EvBringOnline u slot password]\<rparr> in
           case BringOnline E u slot password of
             Some err \<Rightarrow> (Inl err, ib1)
           | None \<Rightarrow>
               (let address' = ToLower (GetPrimaryAddress E u) in
                case users ib1 address' of
                  Some combinedUser \<Rightarrow> (Inr combinedUser, ib1)
                | None \<Rightarrow>
                    (case GetAddressID E u address' of
                       Inl err \<Rightarrow> (Inl err, ib1)
                     | Inr aid \<Rightarrow>
                         (case newIMAPUser E ib1 u aid address' of
                            (Inl err, ib2) \<Rightarrow> (Inl err, ib2)
                          | (Inr newUser, ib2) \<Rightarrow>
                              (Inr newUser,
                               ib2\<lparr>users := (users ib2)(address' \<mapsto> newUser)\<rparr>))))))"

text \<open>\<open>getUser\<close>: lowercase, look up, create on a miss.\<close>

definition getUser ::
  "env \<Rightarrow> imapBackend \<Rightarrow> string \<Rightarrow> string \<Rightarrow> string \<Rightarrow> (error + imapUser) \<times> imapBackend" where
  "getUser E ib address slot password =
     (let address' = ToLower address in
      case users ib address' of
        Some imapUser \<Rightarrow> (Inr imapUser, ib)
      | None \<Rightarrow> createUser E ib address' slot password)"

text \<open>\<open>deleteUser\<close>: Go's \<open>delete\<close> on the lowercased key; it returns nothing.\<close>

definition deleteUser :: "imapBackend \<Rightarrow> string \<Rightarrow> imapBackend" where
  "deleteUser ib address = ib\<lparr>users := (users ib)(ToLower address := None)\<rparr>"

text \<open>
  \<open>monitorDisconnectedUsers\<close>: the loop \<open>for address := range ch\<close> calls \<open>deleteUser\<close>
  for every address received; the argument is the list of addresses delivered on the
  channel so far.
\<close>

fun monitorDisconnectedUsers :: "imapBackend \<Rightarrow> string list \<Rightarrow> imapBackend" where
  "monitorDisconnectedUsers ib [] = ib"
| "monitorDisconnectedUsers ib (address # ch) =
     monitorDisconnectedUsers (deleteUser ib address) ch"

text \<open>
  \<open>Login\<close>.  A failed credential check logs the wrapper out, sleeps ten seconds and
  returns the error of the check.  An error of \<open>Logout\<close> is only written to the log, so
  the answer of \<open>Logout\<close> does not enter the result.
\<close>

definition Login ::
  "env \<Rightarrow> imapBackend \<Rightarrow> string \<Rightarrow> string \<Rightarrow> (error + imapUser) \<times> imapBackend" where
  "Login E ib username password =
     (case DecodeLogin E username of
        (username', slot) \<Rightarrow>
          (case getUser E ib username' slot password of
             (Inl err, ib1) \<Rightarrow> (Inl err, ib1)
           | (Inr imapUser, ib1) \<Rightarrow>
               (let ib2 = ib1\<lparr>trace := trace ib1 @
                                 [EvCheckCredentials (user imapUser) slot password]\<rparr> in
                case CheckCredentials E (user imapUser) slot password of
                  Some err \<Rightarrow>
                    (Inl err,
                     ib2\<lparr>trace := trace ib2 @ [EvLogout (ptr imapUser), EvSleep 10]\<rparr>)
                | None \<Rightarrow>
                    (if GetStore E (user imapUser)
                     then (Inr imapUser,
                           ib2\<lparr>trace := trace ib2 @ [EvSetChangeNotifier (user imapUser)]\<rparr>)
                     else (Inr imapUser, ib2)))))"

text \<open>
  Calls arriving at the backend, each with the answers the collaborators give while it
  runs: a \<open>Login\<close> of a client, or a close-connection event handled by \<open>deleteUser\<close>.
\<close>

datatype request = ReqLogin string string | ReqClose string

fun step :: "env \<Rightarrow> imapBackend \<Rightarrow> request \<Rightarrow> imapBackend" where
  "step E ib (ReqLogin username password) = snd (Login E ib username password)"
| "step E ib (ReqClose address) = deleteUser ib address"

fun run :: "imapBackend \<Rightarrow> (env \<times> request) list \<Rightarrow> imapBackend" where
  "run ib [] = ib"
| "run ib (ec # cs) = run (step (fst ec) ib (snd ec)) cs"

text \<open>
  The property of the map that \<open>createUser\<close> maintains: every entry sits under the
  lowercased primary address of the account its wrapper belongs to.
\<close>

definition cache_inv :: "(bridgeUser \<Rightarrow> string) \<Rightarrow> imapBackend \<Rightarrow> bool" where
  "cache_inv prim ib \<longleftrightarrow> (\<forall>k w. users ib k = Some w \<longrightarrow> k = ToLower (prim (user w)))"

text \<open>The events a call appended to the log.\<close>

definition new_events :: "imapBackend \<Rightarrow> imapBackend \<Rightarrow> event list" where
  "new_events ib ib' = drop (length (trace ib)) (trace ib')"

subsection \<open>A concrete deployment\<close>

text \<open>
  Two accounts: \<open>u1\<close> with primary address \<open>Alice@x.org\<close> and alias \<open>al@x.org\<close>, and
  \<open>u2\<close> with \<open>bob@x.org\<close>.  The bridge password of both is \<open>pw\<close>; both have a store.
\<close>

definition env0 :: env where
  "env0 = \<lparr>
     GetUser = (\<lambda>a. if a = ''alice@x.org'' \<or> a = ''al@x.org'' then Inr ''u1''
                     else if a = ''bob@x.org'' then Inr ''u2''
                     else Inl (ErrExternal ''user not found'')),
     BringOnline = (\<lambda>u slot pw. if pw = ''pw'' then None
                                 else Some (ErrExternal ''cannot unlock credentials'')),
     GetPrimaryAddress = (\<lambda>u. if u = ''u1'' then ''Alice@x.org'' else ''bob@x.org''),
     GetAddressID = (\<lambda>u a. Inr (''id-'' @ a)),
     newIMAPUserErr = (\<lambda>u aid a. None),
     DecodeLogin = (\<lambda>n. (n, ''main'')),
     CheckCredentials = (\<lambda>u slot pw. if pw = ''pw'' then None
                                      else Some (ErrExternal ''wrong password'')),
     GetStore = (\<lambda>u. True)\<rparr>"

definition alice :: imapUser where
  "alice = \<lparr>ptr = 0, user = ''u1'', addressID = ''id-alice@x.org'',
            currentAddressLowercase = ''alice@x.org''\<rparr>"

definition ib_alice :: imapBackend where
  "ib_alice = \<lparr>users = [''alice@x.org'' \<mapsto> alice], next_ptr = 1,
               trace = [EvBringOnline ''u1'' ''main'' ''pw'',
                        EvCheckCredentials ''u1'' ''main'' ''pw'',
                        EvSetChangeNotifier ''u1'']\<rparr>"

definition bob :: imapUser where
  "bob = \<lparr>ptr = 1, user = ''u2'', addressID = ''id-bob@x.org'',
          currentAddressLowercase = ''bob@x.org''\<rparr>"

text \<open>
  Alice logs in with her primary address, then with her alias in capitals; Bob logs in,
  Alice logs in once more, and Bob's connection is closed.
\<close>

definition session0 :: "(env \<times> request) list" where
  "session0 =
     [(env0, ReqLogin ''alice@x.org'' ''pw''),
      (env0, ReqLogin ''AL@x.org'' ''pw''),
      (env0, ReqLogin ''bob@x.org'' ''pw''),
      (env0, ReqLogin ''Alice@X.org'' ''pw''),
      (env0, ReqClose ''Bob@x.org'')]"

section \<open>The users manager (pkg/users): \<open>FinishLogin\<close>\<close>

subsection \<open>Data\<close>

datatype status = Disconnected | Connected

text \<open>An Account Session (\<open>*users.User\<close>) as far as login is concerned.\<close>

record User =
  ID :: string
  status :: status

text \<open>\<open>pmapi.Auth\<close>, with the fields the tests fill in.\<close>

record Auth =
  UserID :: string
  UID :: string
  AccessToken :: string
  RefreshToken :: string

text \<open>
  The account profile that the remote service returns: the name of the account and its
  email addresses.
\<close>

record profile =
  name :: string
  emails :: "string list"

text \<open>
  The calls that change something outside the registry: the three mutations of the
  Credential Store that login uses and the deletion of the auth with a given UID at the
  remote service.  The arguments are those of the \<open>CredentialsStorer\<close> interface as the
  generated mock has it: \<open>Add\<close> takes four strings, a \<open>[]byte\<close> and a \<open>[]string\<close> (the
  account id, the name of the account, which the list of the specification leaves out,
  the UID, the refresh token, the secret and the email addresses), \<open>UpdateToken\<close> three
  strings (id, UID, refresh token) and \<open>UpdatePassword\<close> a string and a \<open>[]byte\<close> (id,
  secret).
\<close>

datatype remoteCall =
    CallAdd string string string string string "string list"
  | CallUpdateToken string string string
  | CallUpdatePassword string string
  | CallAuthDelete string

text \<open>
  The answers of the remote service client and of the Credential Store during one login:
  the salt, whether the keys unlock with a salt and a mailbox password, the profile, and
  whether each store call fails; a successful \<open>Add\<close> answers with the \<open>[]byte\<close> that the
  interface returns beside the record.  \<open>passwordSecret\<close> is the mailbox-password-derived
  secret (from password and salt) and \<open>derivedKey\<close> the derived key string (the secret
  re-wrapped under the main key); the specification names both and defines neither.  What
  it does state about the derived key string is that it is not empty (section 4.1 step
  2), so \<open>derivedKey\<close> gives it as its first character and the rest.
\<close>

record services =
  AuthSalt :: "error + string"
  Unlock :: "string \<Rightarrow> string \<Rightarrow> error option"
  CurrentUser :: "error + profile"
  passwordSecret :: "string \<Rightarrow> string \<Rightarrow> string"
  derivedKey :: "string \<Rightarrow> string \<Rightarrow> char \<times> string"
  Add :: "string \<Rightarrow> string \<Rightarrow> string \<Rightarrow> string \<Rightarrow> string \<Rightarrow> string list
            \<Rightarrow> error + string"
  UpdateToken :: "string \<Rightarrow> string \<Rightarrow> string \<Rightarrow> error option"
  UpdatePassword :: "string \<Rightarrow> string \<Rightarrow> error option"

text \<open>
  The Session Registry: the slice \<open>users.users\<close> that the tests inspect, and the log of
  the calls above.  A session object is identified by its position in the slice.
\<close>

record Users =
  userList :: "User list"
  calls :: "remoteCall list"

subsection \<open>Operations\<close>

text \<open>The string that a first character and a rest make up.\<close>

fun keyString :: "char \<times> string \<Rightarrow> string" where
  "keyString (c, cs) = c # cs"

text \<open>
  Modelled from the spec: the lookup of step 1 of section 4.1 (its code is in the missing
  pkg/users/users.go).  It gives the position of the first session with the given
  account id in the slice, if there is one.
\<close>

fun hasUser :: "string \<Rightarrow> User list \<Rightarrow> nat option" where
  "hasUser uid [] = None"
| "hasUser uid (u # us) =
     (if ID u = uid then Some 0 else map_option Suc (hasUser uid us))"

text \<open>
  Modelled from the spec: the salt-fetch, unlock, profile-fetch sequence of steps 2 and 3
  of section 4.1 (its code is in the missing pkg/users/users.go).  A failed unlock is
  \<open>ErrWrongMailboxPassword\<close>; an error of the remote service is handed on.
\<close>

definition unlockAccount :: "services \<Rightarrow> string \<Rightarrow> error + (string \<times> profile)" where
  "unlockAccount S mailboxPassword =
     (case AuthSalt S of
        Inl err \<Rightarrow> Inl err
      | Inr salt \<Rightarrow>
          (case Unlock S salt mailboxPassword of
             Some err \<Rightarrow> Inl ErrWrongMailboxPassword
           | None \<Rightarrow>
               (case CurrentUser S of
                  Inl err \<Rightarrow> Inl err
                | Inr p \<Rightarrow> Inr (passwordSecret S mailboxPassword salt, p))))"

text \<open>
  Modelled from the spec: \<open>FinishLogin\<close> of the Session Registry, whose file
  (pkg/users/users.go) is not among the sources; only its tests
  (pkg/users/users_login_test.go) and the mock of the Credential Store are.  The
  definition follows section 4.1 of the specification step by step:
  \<^enum> the account id is taken from \<open>auth\<close> and looked up in the registry;
  \<^enum> no session: salt, unlock (failure is \<open>ErrWrongMailboxPassword\<close>, no session), profile,
    a new session in state \<open>Connected\<close>, a new Credentials Record through \<open>Add\<close>, the
    session registered and returned with the derived key string;
  \<^enum> a \<open>Disconnected\<close> session: the same sequence, then \<open>UpdateToken\<close> and
    \<open>UpdatePassword\<close> on the existing record, then the session becomes \<open>Connected\<close>;
  \<^enum> a \<open>Connected\<close> session: the new auth is deleted at the remote service and the
    error is "user is already connected".

  The tests let the salt, unlock and profile requests precede the deletion in step 4
  as well; the specification attaches no outcome to them there, so the definition
  consults them in steps 2 and 3 only.  A failing store call ends the login with its
  error before the registry changes (section 7, persistence errors).  The result is
  Go's triple \<open>(user, key, err)\<close>.  The key of step 2 is the derived key string, which
  the specification states to be not empty; it does not say what login does with the
  bytes that \<open>Add\<close> returns.  A return with an error carries the empty key, and so does
  the return of step 3, for which the specification names no key:
  \<open>checkUsersFinishLogin\<close> asserts the empty key for the failed and for the reconnecting
  login.
\<close>

definition FinishLogin ::
  "services \<Rightarrow> Users \<Rightarrow> Auth \<Rightarrow> string \<Rightarrow> string
     \<Rightarrow> (User option \<times> string \<times> error option) \<times> Users" where
  "FinishLogin S us auth mailboxPassword mainKey =
     (let uid = UserID auth in
      case hasUser uid (userList us) of
        None \<Rightarrow>
          (case unlockAccount S mailboxPassword of
             Inl err \<Rightarrow> ((None, '''', Some err), us)
           | Inr (secret, p) \<Rightarrow>
               (let u = \<lparr>ID = uid, status = Connected\<rparr>;
                    us1 = us\<lparr>calls := calls us @
                            [CallAdd uid (name p) (UID auth) (RefreshToken auth) secret
                               (emails p)]\<rparr>
                in case Add S uid (name p) (UID auth) (RefreshToken auth) secret (emails p) of
                     Inl err \<Rightarrow> ((None, '''', Some err), us1)
                   | Inr bytes \<Rightarrow>
                       ((Some u, keyString (derivedKey S mainKey secret), None),
                        us1\<lparr>userList := userList us1 @ [u]\<rparr>)))
      | Some i \<Rightarrow>
          (let u = userList us ! i in
           if status u = Connected
           then ((None, '''', Some ErrUserAlreadyConnected),
                 us\<lparr>calls := calls us @ [CallAuthDelete (UID auth)]\<rparr>)
           else
             (case unlockAccount S mailboxPassword of
                Inl err \<Rightarrow> ((None, '''', Some err), us)
              | Inr (secret, p) \<Rightarrow>
                  (let us1 = us\<lparr>calls := calls us @
                               [CallUpdateToken uid (UID auth) (RefreshToken auth)]\<rparr>
                   in case UpdateToken S uid (UID auth) (RefreshToken auth) of
                        Some err \<Rightarrow> ((None, '''', Some err), us1)
                      | None \<Rightarrow>
                          (let us2 = us1\<lparr>calls := calls us1 @
                                       [CallUpdatePassword uid secret]\<rparr>
                           in case UpdatePassword S uid secret of
                                Some err \<Rightarrow> ((None, '''', Some err), us2)
                              | None \<Rightarrow>
                                  (let u' = u\<lparr>status := Connected\<rparr>
                                   in ((Some u', '''', None),
                                       us2\<lparr>userList := (userList us2)[i := u']\<rparr>)))))))"

text \<open>The number of sessions the registry holds for an account.\<close>

definition sessionsOf :: "string \<Rightarrow> Users \<Rightarrow> nat" where
  "sessionsOf uid us = length (filter (\<lambda>u. ID u = uid) (userList us))"

subsection \<open>A concrete login\<close>

text \<open>
  The remote service and store of the tests: the salt is empty, the keys unlock with the
  mailbox password \<open>pass\<close> only, and no store call fails.
\<close>

definition services0 :: services where
  "services0 = \<lparr>
     AuthSalt = Inr [],
     Unlock = (\<lambda>salt pw. if pw = ''pass'' then None
                          else Some (ErrExternal ''no keys could be unlocked'')),
     CurrentUser = Inr \<lparr>name = ''username'', emails = [''user@pm.me'']\<rparr>,
     passwordSecret = (\<lambda>pw salt. pw @ salt),
     derivedKey = (\<lambda>mainKey secret. (CHR ''k'', mainKey @ secret)),
     Add = (\<lambda>uid n u r s es. Inr ''slot''),
     UpdateToken = (\<lambda>uid u r. None),
     UpdatePassword = (\<lambda>uid s. None)\<rparr>"

definition auth0 :: Auth where
  "auth0 = \<lparr>UserID = ''user'', UID = ''uid'', AccessToken = ''acc'', RefreshToken = ''ref''\<rparr>"

definition noUsers :: Users where
  "noUsers = \<lparr>userList = [], calls = []\<rparr>"

definition disconnectedUsers :: Users where
  "disconnectedUsers = \<lparr>userList = [\<lparr>ID = ''user'', status = Disconnected\<rparr>], calls = []\<rparr>"

definition connectedUsers :: Users where
  "connectedUsers = \<lparr>userList = [\<lparr>ID = ''user'', status = Connected\<rparr>], calls = []\<rparr>"

section \<open>Evaluation of the concrete deployment\<close>

lemma ToLower_alice: "ToLower ''alice@x.org'' = ''alice@x.org''"
  by (simp add: ToLower_def toLowerByte_def)

lemma ToLower_Alice: "ToLower ''Alice@x.org'' = ''alice@x.org''"
  by (simp add: ToLower_def toLowerByte_def char_of_def bit_Suc_0_iff)

lemma ToLower_AliceX: "ToLower ''Alice@X.org'' = ''alice@x.org''"
  by (simp add: ToLower_def toLowerByte_def char_of_def bit_Suc_0_iff)

lemma ToLower_AL: "ToLower ''AL@x.org'' = ''al@x.org''"
  by (simp add: ToLower_def toLowerByte_def char_of_def bit_Suc_0_iff)

lemma ToLower_al: "ToLower ''al@x.org'' = ''al@x.org''"
  by (simp add: ToLower_def toLowerByte_def)

lemma ToLower_bob: "ToLower ''bob@x.org'' = ''bob@x.org''"
  by (simp add: ToLower_def toLowerByte_def)

lemma ToLower_Bob: "ToLower ''Bob@x.org'' = ''bob@x.org''"
  by (simp add: ToLower_def toLowerByte_def char_of_def bit_Suc_0_iff)

lemma ToLower_nobody: "ToLower ''nobody@x.org'' = ''nobody@x.org''"
  by (simp add: ToLower_def toLowerByte_def)

lemmas ToLower_eval =
  ToLower_alice ToLower_Alice ToLower_AliceX ToLower_AL ToLower_al ToLower_bob ToLower_Bob
  ToLower_nobody

lemmas backend_eval =
  Login_def getUser_def createUser_def newIMAPUser_def deleteUser_def Let_def
  env0_def NewIMAPBackend_def ib_alice_def alice_def bob_def ToLower_eval

lemma env0_GetStore: "GetStore env0 u"
  by (simp add: env0_def)

lemma env0_DecodeLogin: "DecodeLogin env0 n = (n, ''main'')"
  by (simp add: env0_def)

lemma env0_GetUser_al: "GetUser env0 ''al@x.org'' = Inr ''u1''"
  by (simp add: env0_def)

lemma env0_BringOnline: "BringOnline env0 u slot ''pw'' = None"
  by (simp add: env0_def)

lemma env0_CheckCredentials_bad:
  "CheckCredentials env0 u slot ''bad'' = Some (ErrExternal ''wrong password'')"
  by (simp add: env0_def)

lemma ib_alice_trace:
  "trace ib_alice =
     [EvBringOnline ''u1'' ''main'' ''pw'', EvCheckCredentials ''u1'' ''main'' ''pw'',
      EvSetChangeNotifier ''u1'']"
  by (simp add: ib_alice_def)

lemma first_login: "Login env0 NewIMAPBackend ''alice@x.org'' ''pw'' = (Inr alice, ib_alice)"
  by (simp add: backend_eval)

lemma second_login:
  "Login env0 ib_alice ''alice@x.org'' ''pw'' =
     (Inr alice, ib_alice\<lparr>trace := trace ib_alice @
        [EvCheckCredentials ''u1'' ''main'' ''pw'', EvSetChangeNotifier ''u1'']\<rparr>)"
  by (simp add: backend_eval)

lemma getUser_alice_hit: "getUser env0 ib_alice ''alice@x.org'' ''main'' ''bad'' = (Inr alice, ib_alice)"
  by (simp add: backend_eval)

lemma getUser_nobody:
  "getUser env0 NewIMAPBackend ''nobody@x.org'' ''main'' ''pw'' =
     (Inl (ErrExternal ''user not found''), NewIMAPBackend)"
  by (simp add: backend_eval)

lemma getUser_AL:
  "getUser env0 NewIMAPBackend ''AL@x.org'' ''main'' ''pw'' =
     (Inr alice, ib_alice\<lparr>trace := [EvBringOnline ''u1'' ''main'' ''pw'']\<rparr>)"
  by (simp add: backend_eval)

lemma users_session0:
  "users (run NewIMAPBackend session0) = [''alice@x.org'' \<mapsto> alice]"
  by (simp add: session0_def backend_eval fun_upd_twist)

section \<open>How the backend calls change its state\<close>

lemma createUser_cases:
  assumes "createUser E ib a s p = (r, ib')"
  shows "users ib' = users ib
         \<or> (\<exists>u w. r = Inr w \<and> GetUser E a = Inr u \<and> user w = u
                 \<and> users ib (ToLower (GetPrimaryAddress E u)) = None
                 \<and> users ib' = (users ib)(ToLower (GetPrimaryAddress E u) \<mapsto> w))"
  using assms
  by (auto simp: createUser_def newIMAPUser_def Let_def
           split: sum.splits option.splits prod.splits)

lemma createUser_hit:
  assumes "GetUser E a = Inr u" and "BringOnline E u s p = None"
    and "users ib (ToLower (GetPrimaryAddress E u)) = Some w"
  shows "createUser E ib a s p = (Inr w, ib\<lparr>trace := trace ib @ [EvBringOnline u s p]\<rparr>)"
  using assms by (simp add: createUser_def Let_def)

lemma createUser_success:
  assumes "createUser E ib a s p = (Inr w, ib')"
  shows "\<exists>u. GetUser E a = Inr u \<and> BringOnline E u s p = None
             \<and> users ib' (ToLower (GetPrimaryAddress E u)) = Some w"
  using assms
  by (auto simp: createUser_def newIMAPUser_def Let_def
           split: sum.splits option.splits prod.splits)

lemma getUser_trace:
  "\<exists>evs. trace (snd (getUser E ib a s p)) = trace ib @ evs
         \<and> (\<forall>ev \<in> set evs. \<exists>u. ev = EvBringOnline u s p)"
  by (auto simp: getUser_def createUser_def newIMAPUser_def Let_def
           split: sum.splits option.splits prod.splits)

lemma Login_users:
  "users (snd (Login E ib n p)) =
   users (snd (getUser E ib (fst (DecodeLogin E n)) (snd (DecodeLogin E n)) p))"
  by (simp add: Login_def Let_def split: prod.splits sum.splits option.splits)

subsection \<open>The invariant of the map\<close>

lemma NewIMAPBackend_inv: "cache_inv prim NewIMAPBackend"
  by (simp add: cache_inv_def NewIMAPBackend_def)

lemma createUser_inv:
  assumes "cache_inv (GetPrimaryAddress E) ib"
  shows "cache_inv (GetPrimaryAddress E) (snd (createUser E ib a s p))"
proof -
  obtain r ib' where eq: "createUser E ib a s p = (r, ib')"
    by (cases "createUser E ib a s p")
  from createUser_cases [OF eq] assms show ?thesis
    unfolding eq cache_inv_def by (auto split: if_splits)
qed

lemma getUser_inv:
  assumes "cache_inv (GetPrimaryAddress E) ib"
  shows "cache_inv (GetPrimaryAddress E) (snd (getUser E ib a s p))"
  using assms createUser_inv [OF assms]
  by (simp add: getUser_def Let_def split: option.splits)

lemma Login_inv:
  assumes "cache_inv (GetPrimaryAddress E) ib"
  shows "cache_inv (GetPrimaryAddress E) (snd (Login E ib n p))"
  using getUser_inv [OF assms, of "fst (DecodeLogin E n)" "snd (DecodeLogin E n)" p]
  by (simp add: cache_inv_def Login_users)

lemma deleteUser_inv: "cache_inv prim ib \<Longrightarrow> cache_inv prim (deleteUser ib a)"
  by (simp add: cache_inv_def deleteUser_def)

lemma step_inv:
  "cache_inv (GetPrimaryAddress E) ib \<Longrightarrow> cache_inv (GetPrimaryAddress E) (step E ib c)"
  by (cases c) (simp_all add: Login_inv deleteUser_inv)

lemma run_inv:
  "\<forall>ec \<in> set cs. GetPrimaryAddress (fst ec) = prim \<Longrightarrow> cache_inv prim ib
   \<Longrightarrow> cache_inv prim (run ib cs)"
proof (induction cs arbitrary: ib)
  case Nil
  then show ?case by simp
next
  case (Cons ec cs)
  from Cons.prems have "cache_inv prim (step (fst ec) ib (snd ec))"
    using step_inv [of "fst ec" ib "snd ec"] by simp
  with Cons show ?case by simp
qed

section \<open>Eviction\<close>

lemma deleteUser_twice: "deleteUser (deleteUser ib a) a = deleteUser ib a"
  by (simp add: deleteUser_def)

lemma deleteUser_absent: "users ib (ToLower a) = None \<Longrightarrow> deleteUser ib a = ib"
proof -
  assume h: "users ib (ToLower a) = None"
  then have "(users ib)(ToLower a := None) = users ib"
    by (simp add: fun_upd_idem)
  then show ?thesis
    by (simp add: deleteUser_def)
qed

text \<open>
  Claim C8.  Eviction is idempotent: for every address and every state of the backend,
  \<open>deleteUser\<close> called twice with the address leaves the state that one call leaves, the
  same holds for the address delivered twice to \<open>monitorDisconnectedUsers\<close>, and
  \<open>deleteUser\<close> for an address that has no entry (under its lowercased form, the key of
  every lookup) leaves the backend as it was.  \<open>deleteUser\<close> has no error result.
\<close>

theorem deleteUser_idempotent:
  "deleteUser (deleteUser ib a) a = deleteUser ib a
   \<and> monitorDisconnectedUsers ib [a, a] = monitorDisconnectedUsers ib [a]
   \<and> (users ib (ToLower a) = None \<longrightarrow> deleteUser ib a = ib)"
  by (simp add: deleteUser_twice deleteUser_absent)

text \<open>Bob has no entry in \<open>ib_alice\<close>.\<close>

theorem deleteUser_idempotent_witness:
  "users ib_alice (ToLower ''Bob@x.org'') = None
   \<and> deleteUser ib_alice ''Bob@x.org'' = ib_alice"
  using deleteUser_idempotent [of ib_alice "''Bob@x.org''"]
  by (simp add: ib_alice_def ToLower_Bob)

section \<open>The single-instance invariant\<close>

text \<open>
  Claim C1.  Start from a new backend and let any sequence of \<open>Login\<close> calls and
  close-connection events run, with any usernames, casings, slots and passwords, and
  with collaborators that may answer differently at every call as long as the primary
  address of an account stays what it is (\<open>prim\<close>).  In the state \<open>ib\<close> reached:
  \<^item> every entry of the map sits under the lowercased primary address of the account of
    its wrapper;
  \<^item> two entries for the same account are the same entry with the same wrapper object, so
    an account has at most one;
  \<^item> when \<open>createUser\<close> resolves an address (\<open>GetUser\<close> finds the account and
    \<open>BringOnline\<close> succeeds) to an account that has an entry, it returns the wrapper of
    that entry and neither adds an entry nor allocates a wrapper.
\<close>

theorem single_instance:
  assumes "\<forall>ec \<in> set cs. GetPrimaryAddress (fst ec) = prim"
    and "ib = run NewIMAPBackend cs"
  shows "(\<forall>k w. users ib k = Some w \<longrightarrow> k = ToLower (prim (user w)))
       \<and> (\<forall>k k' w w'. users ib k = Some w \<longrightarrow> users ib k' = Some w' \<longrightarrow> user w = user w'
             \<longrightarrow> k = k' \<and> w = w')
       \<and> (\<forall>E a slot pw u k w.
             GetPrimaryAddress E = prim \<longrightarrow> GetUser E a = Inr u
             \<longrightarrow> BringOnline E u slot pw = None
             \<longrightarrow> users ib k = Some w \<longrightarrow> user w = u
             \<longrightarrow> fst (createUser E ib a slot pw) = Inr w
                 \<and> users (snd (createUser E ib a slot pw)) = users ib
                 \<and> next_ptr (snd (createUser E ib a slot pw)) = next_ptr ib)"
proof -
  have inv: "cache_inv prim ib"
    using assms run_inv [OF assms(1) NewIMAPBackend_inv] by simp
  have one: "\<forall>k w. users ib k = Some w \<longrightarrow> k = ToLower (prim (user w))"
    using inv by (simp add: cache_inv_def)
  have two: "\<forall>k k' w w'. users ib k = Some w \<longrightarrow> users ib k' = Some w' \<longrightarrow> user w = user w'
             \<longrightarrow> k = k' \<and> w = w'"
  proof (intro allI impI)
    fix k k' w w'
    assume a: "users ib k = Some w" "users ib k' = Some w'" "user w = user w'"
    from one a have "k = k'" by metis
    with a show "k = k' \<and> w = w'" by simp
  qed
  have three: "\<forall>E a slot pw u k w.
             GetPrimaryAddress E = prim \<longrightarrow> GetUser E a = Inr u
             \<longrightarrow> BringOnline E u slot pw = None
             \<longrightarrow> users ib k = Some w \<longrightarrow> user w = u
             \<longrightarrow> fst (createUser E ib a slot pw) = Inr w
                 \<and> users (snd (createUser E ib a slot pw)) = users ib
                 \<and> next_ptr (snd (createUser E ib a slot pw)) = next_ptr ib"
  proof (intro allI impI)
    fix E :: env and a slot pw u k w
    assume a: "GetPrimaryAddress E = prim" "GetUser E a = Inr u"
      "BringOnline E u slot pw = None" "users ib k = Some w" "user w = u"
    from one a have "users ib (ToLower (GetPrimaryAddress E u)) = Some w" by metis
    from createUser_hit [OF a(2) a(3) this]
    show "fst (createUser E ib a slot pw) = Inr w
                 \<and> users (snd (createUser E ib a slot pw)) = users ib
                 \<and> next_ptr (snd (createUser E ib a slot pw)) = next_ptr ib"
      by simp
  qed
  from one two three show ?thesis by blast
qed

text \<open>
  In the concrete deployment, after \<open>session0\<close> Alice's wrapper sits under
  \<open>alice@x.org\<close>, and \<open>createUser\<close> with her alias returns it.
\<close>

theorem single_instance_witness:
  "users (run NewIMAPBackend session0) ''alice@x.org'' = Some alice
   \<and> ''alice@x.org'' = ToLower (GetPrimaryAddress env0 (user alice))
   \<and> fst (createUser env0 (run NewIMAPBackend session0) ''al@x.org'' ''main'' ''pw'')
       = Inr alice
   \<and> users (snd (createUser env0 (run NewIMAPBackend session0) ''al@x.org'' ''main'' ''pw''))
       = users (run NewIMAPBackend session0)"
proof -
  have h: "\<forall>ec \<in> set session0. GetPrimaryAddress (fst ec) = GetPrimaryAddress env0"
    by (simp add: session0_def)
  have e: "users (run NewIMAPBackend session0) ''alice@x.org'' = Some alice"
    by (simp add: users_session0)
  have u: "user alice = ''u1''"
    by (simp add: alice_def)
  note t = single_instance [OF h refl]
  from t e have "''alice@x.org'' = ToLower (GetPrimaryAddress env0 (user alice))"
    by blast
  moreover from t e u env0_GetUser_al env0_BringOnline [of "''u1''" "''main''"]
  have "fst (createUser env0 (run NewIMAPBackend session0) ''al@x.org'' ''main'' ''pw'')
          = Inr alice
        \<and> users (snd (createUser env0 (run NewIMAPBackend session0) ''al@x.org'' ''main'' ''pw''))
          = users (run NewIMAPBackend session0)"
    by blast
  ultimately show ?thesis using e by simp
qed

section \<open>Case-insensitive login identity\<close>

text \<open>
  Claim C9.  For every address and every state of the backend, \<open>getUser\<close> with the
  address and \<open>getUser\<close> with another casing of it (an address with the same lowercased
  form) do the same: they look up the same key, and on a miss create and store under the
  same key, so result and next state are equal.  When the first call has resolved to a
  wrapper, a following call with the other casing resolves to that wrapper too and
  leaves the map as it is.
\<close>

theorem getUser_case_insensitive:
  assumes "ToLower a = ToLower a'"
  shows "getUser E ib a slot pw = getUser E ib a' slot pw
       \<and> (\<forall>w ib1. getUser E ib a slot pw = (Inr w, ib1)
            \<longrightarrow> fst (getUser E ib1 a' slot pw) = Inr w
                \<and> users (snd (getUser E ib1 a' slot pw)) = users ib1)"
proof -
  have same: "getUser E ib a slot pw = getUser E ib a' slot pw"
    using assms by (simp add: getUser_def)
  have again: "fst (getUser E ib1 a' slot pw) = Inr w
                \<and> users (snd (getUser E ib1 a' slot pw)) = users ib1"
    if g: "getUser E ib a slot pw = (Inr w, ib1)" for w ib1
  proof (cases "users ib (ToLower a)")
    case (Some w0)
    with g have "w0 = w" "ib1 = ib" by (simp_all add: getUser_def)
    with Some assms show ?thesis by (simp add: getUser_def)
  next
    case None
    with g have c: "createUser E ib (ToLower a) slot pw = (Inr w, ib1)"
      by (simp add: getUser_def)
    from createUser_success [OF c] obtain u where
      u: "GetUser E (ToLower a) = Inr u" "BringOnline E u slot pw = None"
         "users ib1 (ToLower (GetPrimaryAddress E u)) = Some w"
      by blast
    show ?thesis
    proof (cases "users ib1 (ToLower a')")
      case None
      with createUser_hit [OF u] assms show ?thesis
        by (simp add: getUser_def)
    next
      case (Some w1)
      from createUser_cases [OF c] None Some assms u have "w1 = w"
        by (auto split: if_splits)
      with Some show ?thesis by (simp add: getUser_def)
    qed
  qed
  from same again show ?thesis by blast
qed

text \<open>\<open>AL@x.org\<close> and \<open>al@x.org\<close> on a new backend of the concrete deployment.\<close>

theorem getUser_case_insensitive_witness:
  "ToLower ''AL@x.org'' = ToLower ''al@x.org''
   \<and> getUser env0 NewIMAPBackend ''al@x.org'' ''main'' ''pw'' =
       (Inr alice, ib_alice\<lparr>trace := [EvBringOnline ''u1'' ''main'' ''pw'']\<rparr>)
   \<and> fst (getUser env0 (ib_alice\<lparr>trace := [EvBringOnline ''u1'' ''main'' ''pw'']\<rparr>)
            ''al@x.org'' ''main'' ''pw'') = Inr alice"
proof -
  have h: "ToLower ''AL@x.org'' = ToLower ''al@x.org''"
    by (simp add: ToLower_eval)
  from getUser_case_insensitive [OF h, of env0 NewIMAPBackend "''main''" "''pw''"] h
  show ?thesis
    by (simp add: getUser_AL)
qed

section \<open>A failed credential check\<close>

text \<open>
  Claim C7.  Whenever \<open>getUser\<close> resolves the decoded login to a wrapper and
  \<open>CheckCredentials\<close> fails, \<open>Login\<close> returns no session and the error of the check, and
  what it did after the check is, in this order, \<open>Logout\<close> of the resolved wrapper and a
  sleep of ten seconds.  Whenever \<open>getUser\<close> fails, \<open>Login\<close> returns that error and the
  state \<open>getUser\<close> left: the only calls made are \<open>BringOnline\<close> calls, so there is no
  credential check, no logout and no sleep on this path.
\<close>

theorem Login_bad_credentials:
  "(\<forall>a slot w ib1 err.
       DecodeLogin E username = (a, slot) \<longrightarrow> getUser E ib a slot password = (Inr w, ib1)
       \<longrightarrow> CheckCredentials E (user w) slot password = Some err
       \<longrightarrow> Login E ib username password =
             (Inl err, ib1\<lparr>trace := trace ib1 @
                 [EvCheckCredentials (user w) slot password, EvLogout (ptr w), EvSleep 10]\<rparr>))
   \<and> (\<forall>a slot ib1 err.
       DecodeLogin E username = (a, slot) \<longrightarrow> getUser E ib a slot password = (Inl err, ib1)
       \<longrightarrow> Login E ib username password = (Inl err, ib1)
           \<and> (\<exists>evs. trace ib1 = trace ib @ evs
                  \<and> (\<forall>ev \<in> set evs. \<exists>u. ev = EvBringOnline u slot password)))"
proof (intro conjI allI impI)
  fix a slot w ib1 err
  assume "DecodeLogin E username = (a, slot)" "getUser E ib a slot password = (Inr w, ib1)"
    "CheckCredentials E (user w) slot password = Some err"
  then show "Login E ib username password =
             (Inl err, ib1\<lparr>trace := trace ib1 @
                 [EvCheckCredentials (user w) slot password, EvLogout (ptr w), EvSleep 10]\<rparr>)"
    by (simp add: Login_def Let_def)
next
  fix a slot ib1 err
  assume "DecodeLogin E username = (a, slot)" "getUser E ib a slot password = (Inl err, ib1)"
  then show "Login E ib username password = (Inl err, ib1)"
    by (simp add: Login_def)
next
  fix a slot ib1 err
  assume "DecodeLogin E username = (a, slot)"
    and g: "getUser E ib a slot password = (Inl err, ib1)"
  from getUser_trace [of E ib a slot password] g
  show "\<exists>evs. trace ib1 = trace ib @ evs
                  \<and> (\<forall>ev \<in> set evs. \<exists>u. ev = EvBringOnline u slot password)"
    by simp
qed

text \<open>
  Alice is cached and a client presents a wrong password; an unknown address on a new
  backend.
\<close>

theorem Login_bad_credentials_witness:
  "Login env0 ib_alice ''alice@x.org'' ''bad'' =
     (Inl (ErrExternal ''wrong password''),
      ib_alice\<lparr>trace := trace ib_alice @
        [EvCheckCredentials ''u1'' ''main'' ''bad'', EvLogout 0, EvSleep 10]\<rparr>)
   \<and> Login env0 NewIMAPBackend ''nobody@x.org'' ''pw'' =
       (Inl (ErrExternal ''user not found''), NewIMAPBackend)"
  using Login_bad_credentials [of env0 "''alice@x.org''" ib_alice "''bad''"]
    Login_bad_credentials [of env0 "''nobody@x.org''" NewIMAPBackend "''pw''"]
  by (simp add: env0_DecodeLogin getUser_alice_hit getUser_nobody env0_CheckCredentials_bad
        alice_def)

section \<open>The change notifier\<close>

text \<open>
  Claim C6, as the code has it.  Every successful \<open>Login\<close> for an account whose store is
  not \<open>nil\<close> attaches the shared change notifier to that store, exactly once in the call
  and as its last action, whatever happened before the call: the first successful login
  and every later one alike.  A successful \<open>Login\<close> for an account without a store and a
  failed \<open>Login\<close> attach nothing.
\<close>

theorem Login_attaches_notifier:
  assumes "Login E ib username password = (r, ib')"
  shows "(\<forall>w. r = Inr w \<longrightarrow> GetStore E (user w)
            \<longrightarrow> count_list (new_events ib ib') (EvSetChangeNotifier (user w)) = 1
                \<and> last (trace ib') = EvSetChangeNotifier (user w))
       \<and> (\<forall>w u. r = Inr w \<longrightarrow> \<not> GetStore E (user w)
            \<longrightarrow> EvSetChangeNotifier u \<notin> set (new_events ib ib'))
       \<and> (\<forall>err u. r = Inl err \<longrightarrow> EvSetChangeNotifier u \<notin> set (new_events ib ib'))"
proof -
  obtain a slot where d: "DecodeLogin E username = (a, slot)"
    by (cases "DecodeLogin E username")
  obtain r1 ib1 where g: "getUser E ib a slot password = (r1, ib1)"
    by (cases "getUser E ib a slot password")
  from getUser_trace [of E ib a slot password] g obtain evs where
    t: "trace ib1 = trace ib @ evs" and
    evs: "\<forall>ev \<in> set evs. \<exists>u. ev = EvBringOnline u slot password"
    by auto
  from evs have no: "EvSetChangeNotifier u \<notin> set evs" for u by auto
  then have cnt: "count_list evs (EvSetChangeNotifier u) = 0" for u
    by (simp add: count_list_0_iff)
  show ?thesis
  proof (cases r1)
    case (Inl err)
    with assms d g t no show ?thesis
      by (auto simp: Login_def new_events_def)
  next
    case (Inr w)
    show ?thesis
    proof (cases "CheckCredentials E (user w) slot password")
      case (Some err)
      with assms d g t no Inr show ?thesis
        by (auto simp: Login_def Let_def new_events_def)
    next
      case None
      with assms d g t no cnt Inr show ?thesis
        by (auto simp: Login_def Let_def new_events_def split: if_splits)
    qed
  qed
qed

text \<open>Alice's second successful login.\<close>

theorem Login_attaches_notifier_witness:
  "count_list (new_events ib_alice (snd (Login env0 ib_alice ''alice@x.org'' ''pw'')))
     (EvSetChangeNotifier ''u1'') = 1"
  using Login_attaches_notifier [of env0 ib_alice "''alice@x.org''" "''pw''"
      "fst (Login env0 ib_alice ''alice@x.org'' ''pw'')"
      "snd (Login env0 ib_alice ''alice@x.org'' ''pw'')"]
  by (simp add: second_login alice_def env0_GetStore)

text \<open>
  The claim as the specification words it (only the first successful login attaches the
  notifier, later ones do not attach it again) fails: Alice's first login on a new
  backend succeeds and leaves \<open>ib_alice\<close>, whose log ends with the notifier being
  attached to the store of \<open>u1\<close>; her second login succeeds too and attaches it again.
\<close>

theorem notifier_attached_again_counterexample:
  "Login env0 NewIMAPBackend ''alice@x.org'' ''pw'' = (Inr alice, ib_alice)
   \<and> last (trace ib_alice) = EvSetChangeNotifier ''u1''
   \<and> fst (Login env0 ib_alice ''alice@x.org'' ''pw'') = Inr alice
   \<and> new_events ib_alice (snd (Login env0 ib_alice ''alice@x.org'' ''pw'')) =
       [EvCheckCredentials ''u1'' ''main'' ''pw'', EvSetChangeNotifier ''u1'']"
  by (simp add: first_login second_login new_events_def ib_alice_trace)

section \<open>The registry\<close>

lemma hasUser_Some:
  "hasUser uid us = Some i \<Longrightarrow> i < length us \<and> ID (us ! i) = uid"
proof (induction us arbitrary: i)
  case Nil
  then show ?case by simp
next
  case (Cons u us)
  then show ?case by (auto split: if_splits)
qed

lemma hasUser_None: "hasUser uid us = None \<Longrightarrow> filter (\<lambda>u. ID u = uid) us = []"
  by (induction us) (auto split: if_splits)

lemma filter_update_same:
  assumes "i < length us" and "P (us ! i) = P v"
  shows "length (filter P (us[i := v])) = length (filter P us)"
  using assms
proof (induction us arbitrary: i)
  case Nil
  then show ?case by simp
next
  case (Cons u us)
  then show ?case by (cases i) auto
qed

lemma distinct_sessions:
  assumes "distinct (map ID us)" and "i < length us"
  shows "length (filter (\<lambda>u. ID u = ID (us ! i)) us) = 1"
  using assms
proof (induction us arbitrary: i)
  case Nil
  then show ?case by simp
next
  case (Cons u us)
  show ?case
  proof (cases i)
    case 0
    from Cons.prems have "ID u \<notin> ID ` set us" by simp
    then have "\<forall>x \<in> set us. ID x \<noteq> ID u" by (metis imageI)
    then have "filter (\<lambda>x. ID x = ID u) us = []" by (simp add: filter_empty_conv)
    with 0 show ?thesis by simp
  next
    case (Suc j)
    with Cons.prems have j: "j < length us" and d: "distinct (map ID us)" by simp_all
    from Cons.prems j have "ID u \<noteq> ID (us ! j)" by auto
    with Cons.IH [OF d j] Suc show ?thesis by simp
  qed
qed

section \<open>Login with a wrong mailbox password\<close>

text \<open>
  Claim C2.  The registry has no session for the account of \<open>auth\<close>, the salt is obtained
  and the keys do not unlock with the mailbox password: \<open>FinishLogin\<close> returns no session,
  the empty key and \<open>ErrWrongMailboxPassword\<close>; the registry and the call log are what they
  were, and the registry holds no session for the account.
\<close>

theorem FinishLogin_wrong_password:
  assumes "hasUser (UserID auth) (userList us) = None"
    and "AuthSalt S = Inr salt"
    and "Unlock S salt mailboxPassword = Some e"
  shows "FinishLogin S us auth mailboxPassword mainKey =
           ((None, '''', Some ErrWrongMailboxPassword), us)
         \<and> sessionsOf (UserID auth) (snd (FinishLogin S us auth mailboxPassword mainKey)) = 0"
  using assms hasUser_None [OF assms(1)]
  by (simp add: FinishLogin_def unlockAccount_def sessionsOf_def)

theorem FinishLogin_wrong_password_witness:
  "FinishLogin services0 noUsers auth0 ''wrong'' ''key'' =
     ((None, '''', Some ErrWrongMailboxPassword), noUsers)"
  using FinishLogin_wrong_password [of auth0 noUsers services0 "''''" "''wrong''"
      "ErrExternal ''no keys could be unlocked''" "''key''"]
  by (simp add: services0_def noUsers_def auth0_def)

section \<open>Login of a connected account\<close>

text \<open>
  Claim C3.  The registry has a session for the account of \<open>auth\<close> and it is \<open>Connected\<close>:
  \<open>FinishLogin\<close> returns no session, the empty key and the error "user is already
  connected", and the one call it has added to the log when it returns is the deletion of
  the new auth (the UID of \<open>auth\<close>) at the remote service.  The registry is unchanged.
\<close>

theorem FinishLogin_already_connected:
  assumes "hasUser (UserID auth) (userList us) = Some i"
    and "status (userList us ! i) = Connected"
  shows "FinishLogin S us auth mailboxPassword mainKey =
           ((None, '''', Some ErrUserAlreadyConnected),
            us\<lparr>calls := calls us @ [CallAuthDelete (UID auth)]\<rparr>)"
  using assms by (simp add: FinishLogin_def)

theorem FinishLogin_already_connected_witness:
  "FinishLogin services0 connectedUsers auth0 ''pass'' ''key'' =
     ((None, '''', Some ErrUserAlreadyConnected),
      connectedUsers\<lparr>calls := [CallAuthDelete ''uid'']\<rparr>)"
  using FinishLogin_already_connected [of auth0 connectedUsers 0 services0 "''pass''" "''key''"]
  by (simp add: connectedUsers_def auth0_def)

section \<open>Login of a disconnected account\<close>

text \<open>
  Claim C4.  The registry, which holds one session per account id, has a session for the
  account of \<open>auth\<close> at position \<open>i\<close> and it is \<open>Disconnected\<close>; salt, unlock and profile
  succeed and so do \<open>UpdateToken\<close> and \<open>UpdatePassword\<close>.  Then \<open>FinishLogin\<close> returns the
  session of position \<open>i\<close>, now \<open>Connected\<close>, and no error; the calls it made on the
  Credential Store are \<open>UpdateToken\<close> with the new UID and refresh token and
  \<open>UpdatePassword\<close> with the secret, and no \<open>Add\<close>; the registry differs from the old one
  at position \<open>i\<close> only, where the same session is \<open>Connected\<close>, and holds exactly one
  session for the account.
\<close>

theorem FinishLogin_reconnect:
  assumes "hasUser (UserID auth) (userList us) = Some i"
    and "status (userList us ! i) = Disconnected"
    and "distinct (map ID (userList us))"
    and "AuthSalt S = Inr salt"
    and "Unlock S salt mailboxPassword = None"
    and "CurrentUser S = Inr p"
    and "secret = passwordSecret S mailboxPassword salt"
    and "UpdateToken S (UserID auth) (UID auth) (RefreshToken auth) = None"
    and "UpdatePassword S (UserID auth) secret = None"
    and "FinishLogin S us auth mailboxPassword mainKey = (r, us')"
  shows "r = (Some ((userList us ! i)\<lparr>status := Connected\<rparr>), '''', None)
       \<and> calls us' = calls us @
            [CallUpdateToken (UserID auth) (UID auth) (RefreshToken auth),
             CallUpdatePassword (UserID auth) secret]
       \<and> userList us' = (userList us)[i := (userList us ! i)\<lparr>status := Connected\<rparr>]
       \<and> ID (userList us' ! i) = UserID auth
       \<and> status (userList us' ! i) = Connected
       \<and> length (userList us') = length (userList us)
       \<and> sessionsOf (UserID auth) us' = 1"
proof -
  from hasUser_Some [OF assms(1)]
  have i: "i < length (userList us)" and id: "ID (userList us ! i) = UserID auth"
    by simp_all
  have r: "r = (Some ((userList us ! i)\<lparr>status := Connected\<rparr>), '''', None)"
    and us': "us' = us\<lparr>calls := calls us @
            [CallUpdateToken (UserID auth) (UID auth) (RefreshToken auth),
             CallUpdatePassword (UserID auth) secret],
            userList := (userList us)[i := (userList us ! i)\<lparr>status := Connected\<rparr>]\<rparr>"
    using assms by (simp_all add: FinishLogin_def unlockAccount_def Let_def)
  have "sessionsOf (UserID auth) us' = sessionsOf (UserID auth) us"
    unfolding sessionsOf_def us'
    using i filter_update_same [of i "userList us" "\<lambda>u. ID u = UserID auth"]
    by simp
  also have "\<dots> = 1"
    unfolding sessionsOf_def using distinct_sessions [OF assms(3) i] id by simp
  finally have one: "sessionsOf (UserID auth) us' = 1" .
  from r us' i id one show ?thesis by simp
qed

theorem FinishLogin_reconnect_witness:
  "fst (FinishLogin services0 disconnectedUsers auth0 ''pass'' ''key'') =
     (Some \<lparr>ID = ''user'', status = Connected\<rparr>, '''', None)
   \<and> calls (snd (FinishLogin services0 disconnectedUsers auth0 ''pass'' ''key'')) =
       [CallUpdateToken ''user'' ''uid'' ''ref'', CallUpdatePassword ''user'' ''pass'']
   \<and> sessionsOf ''user'' (snd (FinishLogin services0 disconnectedUsers auth0 ''pass'' ''key''))
       = 1"
  using FinishLogin_reconnect [of auth0 disconnectedUsers 0 services0 "''''" "''pass''"
      "\<lparr>name = ''username'', emails = [''user@pm.me'']\<rparr>" "''pass''" "''key''"
      "fst (FinishLogin services0 disconnectedUsers auth0 ''pass'' ''key'')"
      "snd (FinishLogin services0 disconnectedUsers auth0 ''pass'' ''key'')"]
  by (simp add: services0_def disconnectedUsers_def auth0_def)

section \<open>Login of a new account\<close>




end
